theory Spec2Isabelle
  imports Complex_Main "HOL-Library.Word"
begin

section \<open>Points, fingerprints and objectives (package optim)\<close>

text \<open>
  A Go \<^verbatim>\<open>Point\<close> is a struct of a coordinate slice and a value. The evaluators never
  compute with the numbers they carry, so the number type is a parameter \<open>'f\<close> there;
  \<open>fbits\<close> stands for \<^verbatim>\<open>math.Float64bits\<close>, the 64-bit pattern of a number.
\<close>

record 'f Point =
  pos :: "'f list"
  Val :: 'f

definition NewPoint :: "'f list \<Rightarrow> 'f \<Rightarrow> 'f Point" where
  "NewPoint ps v = \<lparr>pos = ps, Val = v\<rparr>"

definition Pos :: "'f Point \<Rightarrow> 'f list" where
  "Pos p = pos p"

text \<open>\<^verbatim>\<open>binary.BigEndian.PutUint64\<close>: the eight bytes of a 64-bit word, highest first.\<close>

definition PutUint64 :: "64 word \<Rightarrow> 8 word list" where
  "PutUint64 v =
     [ucast (drop_bit 56 v), ucast (drop_bit 48 v), ucast (drop_bit 40 v), ucast (drop_bit 32 v),
      ucast (drop_bit 24 v), ucast (drop_bit 16 v), ucast (drop_bit 8 v), ucast v]"

text \<open>
  \<^verbatim>\<open>hashPoint\<close> writes the bit pattern of every coordinate into a byte buffer and digests
  it. \<^verbatim>\<open>sha1.Sum\<close> belongs to the Go standard library and is taken as the parameter
  \<open>sha1\<close>.
\<close>

definition hashPoint :: "('f \<Rightarrow> 64 word) \<Rightarrow> (8 word list \<Rightarrow> 'h) \<Rightarrow> 'f Point \<Rightarrow> 'h" where
  "hashPoint fbits sha1 p = sha1 (concat (map (\<lambda>x. PutUint64 (fbits x)) (pos p)))"

text \<open>
  A Go \<^verbatim>\<open>error\<close> is a value of type \<open>error\<close>; \<^verbatim>\<open>nil\<close> is \<open>None\<close>. An
  \<^verbatim>\<open>Objectiver\<close> may keep state of its own (a call counter, a lazily built table), so an
  objective takes the state of the program and returns the new one.
\<close>

datatype error = Error string

type_synonym ('f, 's) Objectiver = "'f list \<Rightarrow> 's \<Rightarrow> ('f \<times> error option) \<times> 's"

type_synonym ('f, 's) Evaler =
  "('f, 's) Objectiver \<Rightarrow> 'f Point list \<Rightarrow> 's \<Rightarrow> ('f Point list \<times> int \<times> error option) \<times> 's"

text \<open>\<^verbatim>\<open>Func\<close> adapts a pure function: it never fails and leaves the state alone.\<close>

definition Func_Objective :: "('f list \<Rightarrow> 'f) \<Rightarrow> ('f, 's) Objectiver" where
  "Func_Objective so v s = ((so v, None), s)"

text \<open>
  \<^verbatim>\<open>ObjectivePrinter\<close> counts the calls and prints one line per call: the count, the
  coordinates and the value. The printed lines are kept as a list, oldest first.
  \<^verbatim>\<open>Count\<close> is a Go \<^verbatim>\<open>int\<close>, modelled unbounded.
\<close>

record 'f ObjectivePrinter =
  Count :: int
  printed :: "(int \<times> 'f list \<times> 'f) list"

definition ObjectivePrinter_Objective ::
  "('f, 's) Objectiver \<Rightarrow> ('f, 'f ObjectivePrinter \<times> 's) Objectiver" where
  "ObjectivePrinter_Objective inner v st =
     (case st of (op, s) \<Rightarrow>
        (case inner v s of ((val, err), s') \<Rightarrow>
           (let c = Count op + 1
            in ((val, err), (op\<lparr>Count := c, printed := printed op @ [(c, v, val)]\<rparr>, s')))))"

section \<open>The serial evaluator\<close>

text \<open>
  \<^verbatim>\<open>SerialEvaler.Eval\<close> walks the batch in order. Every point is appended to the
  results with the value the objective returned, also the failing one; with
  \<^verbatim>\<open>ContinueOnErr\<close> unset the first error ends the loop and is returned, and the
  return after the loop returns \<^verbatim>\<open>nil\<close>.
\<close>

fun SerialEvaler_loop ::
  "bool \<Rightarrow> ('f, 's) Objectiver \<Rightarrow> 'f Point list \<Rightarrow> 'f Point list \<Rightarrow> 's
     \<Rightarrow> ('f Point list \<times> int \<times> error option) \<times> 's" where
  "SerialEvaler_loop ContinueOnErr obj [] results s =
     ((results, int (length results), None), s)"
| "SerialEvaler_loop ContinueOnErr obj (p # ps) results s =
     (case obj (Pos p) s of ((v, err), s') \<Rightarrow>
        (let results' = results @ [p\<lparr>Val := v\<rparr>]
         in if err \<noteq> None \<and> \<not> ContinueOnErr
            then ((results', int (length results'), err), s')
            else SerialEvaler_loop ContinueOnErr obj ps results' s'))"

definition SerialEvaler_Eval :: "bool \<Rightarrow> ('f, 's) Evaler" where
  "SerialEvaler_Eval ContinueOnErr obj points s =
     SerialEvaler_loop ContinueOnErr obj points [] s"

text \<open>
  What the objective answers when it is called on a list of positions one after the other,
  and the state it is left in: the yardstick the evaluators are measured against.
\<close>

fun call_each :: "('f, 's) Objectiver \<Rightarrow> 'f list list \<Rightarrow> 's \<Rightarrow> ('f \<times> error option) list \<times> 's" where
  "call_each obj [] s = ([], s)"
| "call_each obj (v # vs) s =
     (case obj v s of (r, s') \<Rightarrow>
        (case call_each obj vs s' of (rs, s'') \<Rightarrow> (r # rs, s'')))"

definition with_values :: "'f Point list \<Rightarrow> ('f \<times> error option) list \<Rightarrow> 'f Point list" where
  "with_values ps outs = map (\<lambda>(p, r). p\<lparr>Val := fst r\<rparr>) (zip ps outs)"

section \<open>The cache evaluator\<close>

text \<open>
  A Go run-time panic is a value of type \<open>panic\<close>: \<open>IndexOutOfRange i n\<close> is the panic
  of indexing a slice of length \<open>n\<close> at \<open>i\<close>, \<open>ErrShape\<close> and \<open>ErrIndex\<close>
  are the panics of the matrix library on mismatched dimensions and on an element
  outside a matrix.
\<close>

datatype panic = IndexOutOfRange int nat | ErrShape | ErrIndex

record ('f, 's, 'h) CacheEvaler =
  ev :: "('f, 's) Evaler"
  cache :: "'h \<rightharpoonup> 'f"

definition NewCacheEvaler :: "('f, 's) Evaler \<Rightarrow> ('f, 's, 'h) CacheEvaler" where
  "NewCacheEvaler e = \<lparr>ev = e, cache = Map.empty\<rparr>"

text \<open>
  The first loop of \<^verbatim>\<open>CacheEvaler.Eval\<close>. \<open>p\<close> is the loop variable of
  \<^verbatim>\<open>for i, p := range points\<close>, a copy of \<^verbatim>\<open>points[i]\<close>: on a hit the cached value
  is assigned to the copy (\<open>p'\<close> below), which the loop then drops; on a miss the index
  and the point are appended to \<^verbatim>\<open>fromnew\<close> and \<^verbatim>\<open>newp\<close>.
\<close>

fun cache_scan ::
  "('f Point \<Rightarrow> 'h) \<Rightarrow> ('h \<rightharpoonup> 'f) \<Rightarrow> 'f Point list \<Rightarrow> nat \<Rightarrow> nat list \<Rightarrow> 'f Point list
     \<Rightarrow> nat list \<times> 'f Point list" where
  "cache_scan h c [] i fromnew newp = (fromnew, newp)"
| "cache_scan h c (p # ps) i fromnew newp =
     (case c (h p) of
        Some val \<Rightarrow> (let p' = p\<lparr>Val := val\<rparr> in cache_scan h c ps (Suc i) fromnew newp)
      | None \<Rightarrow> cache_scan h c ps (Suc i) (fromnew @ [i]) (newp @ [p]))"

text \<open>The second loop: every returned point is recorded under its own fingerprint.\<close>

fun cache_store :: "('f Point \<Rightarrow> 'h) \<Rightarrow> ('h \<rightharpoonup> 'f) \<Rightarrow> 'f Point list \<Rightarrow> ('h \<rightharpoonup> 'f)" where
  "cache_store h c [] = c"
| "cache_store h c (p # ps) = cache_store h (c(h p \<mapsto> Val p)) ps"

text \<open>
  The third loop, \<^verbatim>\<open>points[fromnew[i]].Val = p.Val\<close> for the \<open>i\<close>-th returned point:
  it panics when \<^verbatim>\<open>fromnew\<close> is shorter than the returned results. The first list of
  indices is what is left of \<^verbatim>\<open>fromnew\<close>, the number next to it is the \<open>i\<close> reached.
\<close>

fun backfill ::
  "'f Point list \<Rightarrow> nat list \<Rightarrow> nat \<Rightarrow> nat \<Rightarrow> 'f Point list \<Rightarrow> panic + 'f Point list" where
  "backfill points ks i len [] = Inr points"
| "backfill points [] i len (r # rs) = Inl (IndexOutOfRange (int i) len)"
| "backfill points (k # ks) i len (r # rs) =
     (if k < length points
      then backfill (points[k := (points ! k)\<lparr>Val := Val r\<rparr>]) ks (Suc i) len rs
      else Inl (IndexOutOfRange (int k) (length points)))"

text \<open>
  \<^verbatim>\<open>CacheEvaler.Eval\<close>. The receiver is a pointer, so the evaluator is returned with
  its cache as the call left it, also when the call panics. An inner evaluator that
  itself does not return is outside this function: \<open>ev\<close> is a function that returns.
\<close>

definition CacheEvaler_Eval ::
  "('f \<Rightarrow> 64 word) \<Rightarrow> (8 word list \<Rightarrow> 'h) \<Rightarrow> ('f, 's, 'h) CacheEvaler \<Rightarrow> ('f, 's) Objectiver
     \<Rightarrow> 'f Point list \<Rightarrow> 's
     \<Rightarrow> (panic + 'f Point list \<times> int \<times> error option) \<times> ('f, 's, 'h) CacheEvaler \<times> 's" where
  "CacheEvaler_Eval fbits sha1 ce obj points s =
     (case cache_scan (hashPoint fbits sha1) (cache ce) points 0 [] [] of (fromnew, newp) \<Rightarrow>
      (case ev ce obj newp s of ((newresults, n, err), s') \<Rightarrow>
        (let ce' = ce\<lparr>cache := cache_store (hashPoint fbits sha1) (cache ce) newresults\<rparr>
         in case backfill points fromnew 0 (length fromnew) newresults of
              Inl pn \<Rightarrow> (Inl pn, ce', s')
            | Inr points' \<Rightarrow>
                if length fromnew > 0
                then (let idx = int (length newresults) - 1
                      in if idx < 0 \<or> int (length fromnew) \<le> idx
                         then (Inl (IndexOutOfRange idx (length fromnew)), ce', s')
                         else (Inr (take (fromnew ! nat idx + 1) points', n, err), ce', s'))
                else (Inr (points', n, err), ce', s'))))"

text \<open>The points of a batch that miss the cache, and their indices in the batch.\<close>

definition misses :: "('f Point \<Rightarrow> 'h) \<Rightarrow> ('h \<rightharpoonup> 'f) \<Rightarrow> 'f Point list \<Rightarrow> 'f Point list" where
  "misses h c points = filter (\<lambda>p. c (h p) = None) points"

definition miss_indices :: "('f Point \<Rightarrow> 'h) \<Rightarrow> ('h \<rightharpoonup> 'f) \<Rightarrow> 'f Point list \<Rightarrow> nat list" where
  "miss_indices h c points = filter (\<lambda>i. c (h (points ! i)) = None) [0..<length points]"

section \<open>Matrices (the operations of mat64 the code calls)\<close>

text \<open>
  From here on the code computes with its numbers. A \<^verbatim>\<open>float64\<close> is modelled as a
  real number and its arithmetic as exact: rounding, overflow and NaN are outside the
  model. Where the code divides by a number that may be zero, the model says what the
  division gives in Go (an infinity) instead of HOL's \<open>x / 0 = 0\<close>.

  A \<^verbatim>\<open>mat64.Dense\<close> is its number of columns and its list of rows. The library panics on
  mismatched dimensions; \<open>then_do\<close> passes a panic on.
\<close>

record Dense =
  cols :: nat
  rws :: "real list list"

definition then_do :: "panic + 'a \<Rightarrow> ('a \<Rightarrow> panic + 'b) \<Rightarrow> panic + 'b" where
  "then_do r f = (case r of Inl e \<Rightarrow> Inl e | Inr x \<Rightarrow> f x)"

definition Dims :: "Dense \<Rightarrow> nat \<times> nat" where
  "Dims M = (length (rws M), cols M)"

text \<open>\<^verbatim>\<open>mat64.NewDense(len(v), 1, v)\<close>: a slice as a column.\<close>

definition column :: "real list \<Rightarrow> Dense" where
  "column v = \<lparr>cols = 1, rws = map (\<lambda>x. [x]) v\<rparr>"

definition At :: "Dense \<Rightarrow> nat \<Rightarrow> nat \<Rightarrow> panic + real" where
  "At M i j = (if i < length (rws M) \<and> j < cols M \<and> j < length (rws M ! i)
               then Inr (rws M ! i ! j) else Inl ErrIndex)"

definition Row :: "Dense \<Rightarrow> nat \<Rightarrow> panic + real list" where
  "Row M i = (if i < length (rws M) then Inr (rws M ! i) else Inl ErrIndex)"

definition Col :: "Dense \<Rightarrow> nat \<Rightarrow> panic + real list" where
  "Col M j = (if j < cols M \<and> (\<forall>r \<in> set (rws M). j < length r)
              then Inr (map (\<lambda>r. r ! j) (rws M)) else Inl ErrIndex)"


definition Stack :: "Dense \<Rightarrow> Dense \<Rightarrow> panic + Dense" where
  "Stack M N = (if cols M \<noteq> cols N then Inl ErrShape
                else Inr \<lparr>cols = cols M, rws = rws M @ rws N\<rparr>)"

definition TCopy :: "Dense \<Rightarrow> Dense" where
  "TCopy M = \<lparr>cols = length (rws M), rws = map (\<lambda>j. map (\<lambda>r. r ! j) (rws M)) [0..<cols M]\<rparr>"

definition dot :: "real list \<Rightarrow> real list \<Rightarrow> real" where
  "dot u v = sum_list (map (\<lambda>(x, y). x * y) (zip u v))"

definition Mul :: "Dense \<Rightarrow> Dense \<Rightarrow> panic + Dense" where
  "Mul M N = (if cols M \<noteq> length (rws N) then Inl ErrShape
              else Inr \<lparr>cols = cols N, rws = map (\<lambda>r. map (dot r) (rws (TCopy N))) (rws M)\<rparr>)"

definition Add :: "Dense \<Rightarrow> Dense \<Rightarrow> panic + Dense" where
  "Add M N = (if Dims M \<noteq> Dims N then Inl ErrShape
              else Inr \<lparr>cols = cols M,
                       rws = map (\<lambda>(r, r'). map (\<lambda>(x, y). x + y) (zip r r')) (zip (rws M) (rws N))\<rparr>)"

definition Sub :: "Dense \<Rightarrow> Dense \<Rightarrow> panic + Dense" where
  "Sub M N = (if Dims M \<noteq> Dims N then Inl ErrShape
              else Inr \<lparr>cols = cols M,
                       rws = map (\<lambda>(r, r'). map (\<lambda>(x, y). x - y) (zip r r')) (zip (rws M) (rws N))\<rparr>)"

section \<open>The penalty decorator\<close>







section \<open>The polyhedral projector (package mesh)\<close>

text \<open>
  \<^verbatim>\<open>mat64.Solve\<close> and \<^verbatim>\<open>mat64.Inverse\<close> belong to the matrix library. They are
  parameters of the model: functions that panic, report an error or return a matrix.
  The matrix \<^verbatim>\<open>A\<close> of the source is \<open>Am\<close> here, \<open>A\<close> being a field of the penalty
  decorator.
\<close>

type_synonym solver = "Dense \<Rightarrow> Dense \<Rightarrow> panic + (error + Dense)"

type_synonym inverter = "Dense \<Rightarrow> panic + (error + Dense)"

definition eye :: "nat \<Rightarrow> Dense" where
  "eye n = \<lparr>cols = n, rws = map (\<lambda>i. map (\<lambda>j. if i = j then 1 else 0) [0..<n]) [0..<n]\<rparr>"

definition OrthoProj ::
  "solver \<Rightarrow> inverter \<Rightarrow> real list \<Rightarrow> Dense \<Rightarrow> Dense \<Rightarrow> panic + (error + real list)" where
  "OrthoProj solve invert x0 Am b =
     (let x = column x0; m = fst (Dims Am); n = snd (Dims Am)
      in if m \<ge> n
         then then_do (solve Am b) (\<lambda>r.
                case r of
                  Inl err \<Rightarrow> Inr (Inl err)
                | Inr proj \<Rightarrow> then_do (Col proj 0) (\<lambda>c. Inr (Inr c)))
         else (let Atrans = TCopy Am
               in then_do (Mul Am Atrans) (\<lambda>AAtrans.
                  then_do (invert AAtrans) (\<lambda>r.
                    case r of
                      Inl err \<Rightarrow> Inr (Inl err)
                    | Inr ainv \<Rightarrow>
                        then_do (Mul Atrans ainv) (\<lambda>B.
                        (let n' = fst (Dims B)
                         in then_do (Mul B Am) (\<lambda>tmp.
                            then_do (Sub (eye n') tmp) (\<lambda>tmp.
                            then_do (Mul tmp x) (\<lambda>tmp.
                            then_do (Mul B b) (\<lambda>tmp2.
                            then_do (Add tmp tmp2) (\<lambda>tmp.
                            then_do (Col tmp 0) (\<lambda>c. Inr (Inr c)))))))))))))"

definition l2norm :: "real list \<Rightarrow> real" where
  "l2norm v = sqrt (sum_list (map (\<lambda>x. x * x) v))"

text \<open>
  The distance \<^verbatim>\<open>d\<close> of \<^verbatim>\<open>mostviolated\<close> is a quotient by the norm of a row; for a
  row of zeros it is \<^verbatim>\<open>+Inf\<close> in Go (the dividend is above \<open>eps\<close>). \<open>dist_gt\<close> is
  \<^verbatim>\<open>d > farthest\<close>.
\<close>

datatype dist = Fin real | PInf

fun dist_gt :: "dist \<Rightarrow> dist \<Rightarrow> bool" where
  "dist_gt (Fin x) (Fin y) = (x > y)"
| "dist_gt PInf (Fin y) = True"
| "dist_gt d PInf = False"

definition eps :: real where
  "eps = 1 / 100000"

text \<open>
  The loop of \<^verbatim>\<open>mostviolated\<close> over the rows \<open>i, i + 1, ...\<close>, \<open>k\<close> rows left;
  \<^verbatim>\<open>worstRow\<close> is \<open>None\<close> for the \<open>-1\<close> of the source.
\<close>

fun mostviolated_loop ::
  "Dense \<Rightarrow> Dense \<Rightarrow> Dense \<Rightarrow> nat \<Rightarrow> nat \<Rightarrow> dist \<Rightarrow> nat option \<Rightarrow> panic + nat option" where
  "mostviolated_loop Am b ax i 0 farthest worstRow = Inr worstRow"
| "mostviolated_loop Am b ax i (Suc k) farthest worstRow =
     then_do (At ax i 0) (\<lambda>axi.
     then_do (At b i 0) (\<lambda>bi.
       (let diff = axi - bi
        in if diff > eps
           then then_do (Row Am i) (\<lambda>row.
                  (let d = (if l2norm row = 0 then PInf else Fin ((axi - bi) / l2norm row))
                   in if dist_gt d farthest
                      then mostviolated_loop Am b ax (Suc i) k d (Some i)
                      else mostviolated_loop Am b ax (Suc i) k farthest worstRow))
           else mostviolated_loop Am b ax (Suc i) k farthest worstRow)))"

text \<open>
  \<^verbatim>\<open>mostviolated\<close> returns \<open>None\<close> for \<^verbatim>\<open>nil, nil\<close>. \<^verbatim>\<open>mat64.NewDense(r, c, data)\<close>
  panics unless \<open>data\<close> has \<open>r * c\<close> elements.
\<close>

definition mostviolated :: "real list \<Rightarrow> Dense \<Rightarrow> Dense \<Rightarrow> panic + (Dense \<times> Dense) option" where
  "mostviolated x0 Am b =
     then_do (Mul Am (column x0)) (\<lambda>ax.
       (let m = fst (Dims ax)
        in then_do (mostviolated_loop Am b ax 0 m (Fin 0) None) (\<lambda>worstRow.
             case worstRow of
               None \<Rightarrow> Inr None
             | Some w \<Rightarrow>
                 then_do (Row Am w) (\<lambda>arow.
                 then_do (Row b w) (\<lambda>brow.
                   if length arow \<noteq> length x0 \<or> length brow \<noteq> 1 then Inl ErrShape
                   else Inr (Some (\<lparr>cols = length x0, rws = [arow]\<rparr>,
                                   \<lparr>cols = 1, rws = [brow]\<rparr>)))))))"

text \<open>
  The variables of the loop of \<^verbatim>\<open>Nearest\<close>: \<open>frm\<close> is \<^verbatim>\<open>from\<close>, \<open>bad\<close> is the pair
  \<^verbatim>\<open>badA, badb\<close> (set and cleared together, \<open>None\<close> for \<^verbatim>\<open>nil\<close>). The iteration
  counter \<^verbatim>\<open>i\<close> and the printing are left out: they do not reach the result.
\<close>

record Nearest_state =
  frm :: "real list"
  proj :: "real list"
  bad :: "(Dense \<times> Dense) option"
  failcount :: nat

text \<open>
  The working set with the most violated row added: the row itself when the set is
  \<^verbatim>\<open>nil\<close>, else the row stacked under it.
\<close>

definition stack_bad :: "(Dense \<times> Dense) option \<Rightarrow> Dense \<Rightarrow> Dense \<Rightarrow> panic + Dense \<times> Dense" where
  "stack_bad bd Aviol bviol =
     (case bd of
        None \<Rightarrow> Inr (Aviol, bviol)
      | Some (tmpA, tmpb) \<Rightarrow>
          then_do (Stack tmpA Aviol) (\<lambda>badA.
          then_do (Stack tmpb bviol) (\<lambda>badb. Inr (badA, badb))))"

text \<open>One pass through the body of the loop: it returns, goes round again or panics.\<close>

datatype Nearest_step_result =
  Return "real list \<times> bool" | Next Nearest_state | Panics panic

definition Nearest_step ::
  "solver \<Rightarrow> inverter \<Rightarrow> Dense \<Rightarrow> Dense \<Rightarrow> Nearest_state \<Rightarrow> Nearest_step_result" where
  "Nearest_step solve invert Am b st =
     (case mostviolated (proj st) Am b of
        Inl pn \<Rightarrow> Panics pn
      | Inr None \<Rightarrow> Return (proj st, True)
      | Inr (Some (Aviol, bviol)) \<Rightarrow>
          (case stack_bad (bad st) Aviol bviol of
             Inl pn \<Rightarrow> Panics pn
           | Inr (badA, badb) \<Rightarrow>
               (case OrthoProj solve invert (frm st) badA badb of
                  Inl pn \<Rightarrow> Panics pn
                | Inr (Inl err) \<Rightarrow>
                    (let failcount' = failcount st + 1
                     in if failcount' = 2 then Return (proj st, False)
                        else Next (st\<lparr>frm := proj st, bad := None, failcount := failcount'\<rparr>))
                | Inr (Inr newproj) \<Rightarrow>
                    Next (st\<lparr>bad := Some (badA, badb), proj := newproj\<rparr>))))"

text \<open>
  The loop has no bound and need not end: \<open>Nearest_loop\<close> is \<open>None\<close> when it does not.
\<close>

partial_function (option) Nearest_loop ::
  "solver \<Rightarrow> inverter \<Rightarrow> Dense \<Rightarrow> Dense \<Rightarrow> Nearest_state \<Rightarrow> (panic + real list \<times> bool) option" where
  "Nearest_loop solve invert Am b st =
     (case Nearest_step solve invert Am b st of
        Return r \<Rightarrow> Some (Inr r)
      | Panics pn \<Rightarrow> Some (Inl pn)
      | Next st' \<Rightarrow> Nearest_loop solve invert Am b st')"

definition Nearest ::
  "solver \<Rightarrow> inverter \<Rightarrow> real list \<Rightarrow> Dense \<Rightarrow> Dense \<Rightarrow> (panic + real list \<times> bool) option" where
  "Nearest solve invert x0 Am b =
     Nearest_loop solve invert Am b \<lparr>frm = x0, proj = x0, bad = None, failcount = 0\<rparr>"

text \<open>The first \<open>k\<close> passes through the loop from a state, or fewer when it ends before.\<close>

fun Nearest_steps ::
  "solver \<Rightarrow> inverter \<Rightarrow> Dense \<Rightarrow> Dense \<Rightarrow> nat \<Rightarrow> Nearest_state \<Rightarrow> Nearest_step_result" where
  "Nearest_steps solve invert Am b 0 st = Next st"
| "Nearest_steps solve invert Am b (Suc k) st =
     (case Nearest_step solve invert Am b st of
        Next st' \<Rightarrow> Nearest_steps solve invert Am b k st'
      | Return r \<Rightarrow> Return r
      | Panics pn \<Rightarrow> Panics pn)"

text \<open>
  Whether the projection of the pass that starts in a state fails (\<^verbatim>\<open>OrthoProj\<close>
  returns an error), and the number of failed projections in the first \<open>k\<close> passes.
\<close>

definition projection_fails ::
  "solver \<Rightarrow> inverter \<Rightarrow> Dense \<Rightarrow> Dense \<Rightarrow> Nearest_state \<Rightarrow> bool" where
  "projection_fails solve invert Am b st =
     (case mostviolated (proj st) Am b of
        Inl pn \<Rightarrow> False
      | Inr None \<Rightarrow> False
      | Inr (Some (Aviol, bviol)) \<Rightarrow>
          (case stack_bad (bad st) Aviol bviol of
             Inl pn \<Rightarrow> False
           | Inr (badA, badb) \<Rightarrow>
               (case OrthoProj solve invert (frm st) badA badb of
                  Inl pn \<Rightarrow> False
                | Inr (Inl err) \<Rightarrow> True
                | Inr (Inr newproj) \<Rightarrow> False)))"

fun count_failures ::
  "solver \<Rightarrow> inverter \<Rightarrow> Dense \<Rightarrow> Dense \<Rightarrow> nat \<Rightarrow> Nearest_state \<Rightarrow> nat" where
  "count_failures solve invert Am b 0 st = 0"
| "count_failures solve invert Am b (Suc k) st =
     (if projection_fails solve invert Am b st then 1 else 0)
     + (case Nearest_step solve invert Am b st of
          Next st' \<Rightarrow> count_failures solve invert Am b k st'
        | Return r \<Rightarrow> 0
        | Panics pn \<Rightarrow> 0)"

subsection \<open>The matrix library in exact arithmetic\<close>

text \<open>
  For runs on given numbers, \<^verbatim>\<open>mat64.Inverse\<close> and \<^verbatim>\<open>mat64.Solve\<close> in exact arithmetic:
  the invert of a square matrix by cofactors, an error when the determinant is zero;
  the solution of a square system by the invert and of a tall system by the normal
  equations (least squares).
\<close>

definition del_nth :: "nat \<Rightarrow> 'a list \<Rightarrow> 'a list" where
  "del_nth j xs = take j xs @ drop (Suc j) xs"

function det :: "real list list \<Rightarrow> real" where
  "det [] = 1"
| "det (r # rs) =
     sum_list (map (\<lambda>j. (- 1) ^ j * r ! j * det (map (del_nth j) rs)) [0..<length r])"
  by pat_completeness auto
termination
  by (relation "measure length") auto

definition exact_Inverse :: inverter where
  "exact_Inverse M =
     (let n = length (rws M)
      in if cols M \<noteq> n then Inl ErrShape
         else if det (rws M) = 0 then Inr (Inl (Error ''matrix singular''))
         else Inr (Inr \<lparr>cols = n,
                rws = map (\<lambda>i. map (\<lambda>j. (- 1) ^ (i + j)
                                   * det (map (del_nth i) (del_nth j (rws M))) / det (rws M))
                               [0..<n]) [0..<n]\<rparr>))"

definition exact_Solve :: solver where
  "exact_Solve M N =
     (if length (rws M) \<noteq> length (rws N) \<or> length (rws M) < cols M then Inl ErrShape
      else if length (rws M) = cols M
      then then_do (exact_Inverse M) (\<lambda>r.
             case r of
               Inl err \<Rightarrow> Inr (Inl err)
             | Inr ainv \<Rightarrow> then_do (Mul ainv N) (\<lambda>x. Inr (Inr x)))
      else then_do (Mul (TCopy M) M) (\<lambda>MtM.
           then_do (exact_Inverse MtM) (\<lambda>r.
             case r of
               Inl err \<Rightarrow> Inr (Inl err)
             | Inr ainv \<Rightarrow>
                 then_do (Mul (TCopy M) N) (\<lambda>MtN.
                 then_do (Mul ainv MtN) (\<lambda>x. Inr (Inr x))))))"

section \<open>The parallel evaluator\<close>

text \<open>
  \<^verbatim>\<open>ParallelEvaler.Eval\<close> starts one goroutine for every point and collects from a
  buffered channel. The model is a transition system: the state holds what the main
  goroutine and the started goroutines have done so far, an actor takes one step at a
  time, and a schedule (a list of actors) is one interleaving. A step of an actor that
  is blocked, or has ended, is \<open>None\<close>.

  Each goroutine evaluates the point of its own iteration of the spawn loop; which point
  it reads has no influence on whether \<^verbatim>\<open>Eval\<close> returns.
\<close>

record 'f errpoint =
  Point :: "'f Point"
  Err :: "error option"

text \<open>
  A goroutine is started, then has evaluated its point (\<^verbatim>\<open>perr\<close> is filled), then has
  sent \<^verbatim>\<open>perr\<close> on the channel, then has called \<^verbatim>\<open>wg.Done()\<close> and ended.
\<close>

datatype 'f goroutine = Started "'f Point" | Evaluated "'f errpoint" | Sent | Ended

text \<open>
  The main goroutine is in the spawn loop, in \<^verbatim>\<open>for p := range ch\<close>, in
  \<^verbatim>\<open>wg.Wait()\<close>, or has returned.
\<close>

datatype main_pc = Spawning | Receiving | Waiting | Returned

text \<open>
  \<open>eval_results\<close> and \<open>eval_err\<close> are the variables \<^verbatim>\<open>results\<close> and \<^verbatim>\<open>err\<close> of
  \<^verbatim>\<open>Eval\<close>, \<open>ch\<close> is the buffer of the channel, \<open>pending\<close> the points the spawn loop
  has not reached, \<open>shared\<close> the state the objective works on.
\<close>

record ('f, 's) par_state =
  pending :: "'f Point list"
  goroutines :: "'f goroutine list"
  ch :: "'f errpoint list"
  ch_cap :: nat
  ch_closed :: bool
  wg :: int
  eval_results :: "'f Point list"
  eval_err :: "error option"
  pc :: main_pc
  shared :: 's

datatype actor = Main | Goroutine nat

text \<open>
  The state after \<^verbatim>\<open>results = make(...)\<close>, \<^verbatim>\<open>wg.Add(len(points))\<close> and
  \<^verbatim>\<open>ch := make(chan errpoint, len(points))\<close>.
\<close>

definition ParallelEvaler_start :: "'f Point list \<Rightarrow> 's \<Rightarrow> ('f, 's) par_state" where
  "ParallelEvaler_start points s =
     \<lparr>pending = points, goroutines = [], ch = [], ch_cap = length points, ch_closed = False,
      wg = int (length points), eval_results = [], eval_err = None, pc = Spawning, shared = s\<rparr>"

text \<open>
  A step of the main goroutine. In the spawn loop it starts the goroutine of the next
  point, or goes on to the receive loop. In the receive loop it takes the next value of
  the channel, keeps its error if it has one and appends its point; on an empty channel
  it leaves the loop if the channel is closed and is blocked if it is not. In
  \<^verbatim>\<open>wg.Wait()\<close> it returns once the counter is zero.
\<close>

definition main_step :: "('f, 's) par_state \<Rightarrow> ('f, 's) par_state option" where
  "main_step st =
     (case pc st of
        Spawning \<Rightarrow>
          (case pending st of
             [] \<Rightarrow> Some (st\<lparr>pc := Receiving\<rparr>)
           | p # ps \<Rightarrow> Some (st\<lparr>pending := ps, goroutines := goroutines st @ [Started p]\<rparr>))
      | Receiving \<Rightarrow>
          (case ch st of
             [] \<Rightarrow> if ch_closed st then Some (st\<lparr>pc := Waiting\<rparr>) else None
           | p # rest \<Rightarrow>
               Some (st\<lparr>ch := rest,
                        eval_err := (if Err p \<noteq> None then Err p else eval_err st),
                        eval_results := eval_results st @ [Point p]\<rparr>))
      | Waiting \<Rightarrow> if wg st = 0 then Some (st\<lparr>pc := Returned\<rparr>) else None
      | Returned \<Rightarrow> None)"

text \<open>
  A step of the goroutine number \<open>i\<close>: it calls the objective, or sends on the channel
  (blocked while the buffer is full), or calls \<^verbatim>\<open>wg.Done()\<close>.
\<close>

definition goroutine_step ::
  "('f, 's) Objectiver \<Rightarrow> nat \<Rightarrow> ('f, 's) par_state \<Rightarrow> ('f, 's) par_state option" where
  "goroutine_step obj i st =
     (if i < length (goroutines st)
      then (case goroutines st ! i of
              Started p \<Rightarrow>
                (case obj (Pos p) (shared st) of ((v, e), s') \<Rightarrow>
                   Some (st\<lparr>goroutines := (goroutines st)[i := Evaluated \<lparr>Point = p\<lparr>Val := v\<rparr>, Err = e\<rparr>],
                            shared := s'\<rparr>))
            | Evaluated perr \<Rightarrow>
                if length (ch st) < ch_cap st
                then Some (st\<lparr>goroutines := (goroutines st)[i := Sent], ch := ch st @ [perr]\<rparr>)
                else None
            | Sent \<Rightarrow> Some (st\<lparr>goroutines := (goroutines st)[i := Ended], wg := wg st - 1\<rparr>)
            | Ended \<Rightarrow> None)
      else None)"

definition par_step ::
  "('f, 's) Objectiver \<Rightarrow> actor \<Rightarrow> ('f, 's) par_state \<Rightarrow> ('f, 's) par_state option" where
  "par_step obj a st = (case a of Main \<Rightarrow> main_step st | Goroutine i \<Rightarrow> goroutine_step obj i st)"

text \<open>A run under a schedule; an actor that cannot move when it is scheduled is skipped.\<close>

fun par_run ::
  "('f, 's) Objectiver \<Rightarrow> actor list \<Rightarrow> ('f, 's) par_state \<Rightarrow> ('f, 's) par_state" where
  "par_run obj [] st = st"
| "par_run obj (a # as) st =
     (case par_step obj a st of
        None \<Rightarrow> par_run obj as st
      | Some st' \<Rightarrow> par_run obj as st')"

text \<open>What \<^verbatim>\<open>Eval\<close> has returned in a state: nothing before the main goroutine returns.\<close>

definition ParallelEvaler_returned ::
  "('f, 's) par_state \<Rightarrow> ('f Point list \<times> int \<times> error option) option" where
  "ParallelEvaler_returned st =
     (if pc st = Returned then Some (eval_results st, int (length (eval_results st)), eval_err st) else None)"


section \<open>Properties of the serial evaluator\<close>

lemma call_each_append:
  "call_each obj (us @ vs) s =
     (case call_each obj us s of (rs, s') \<Rightarrow>
        (case call_each obj vs s' of (rs', s'') \<Rightarrow> (rs @ rs', s'')))"
  by (induction us arbitrary: s) (auto split: prod.splits)

lemma length_call_each: "length (fst (call_each obj vs s)) = length vs"
proof (induction vs arbitrary: s)
  case Nil
  then show ?case by simp
next
  case (Cons v vs)
  obtain r s' where o: "obj v s = (r, s')" by (metis surj_pair)
  from Cons [of s'] o show ?case by (cases "call_each obj vs s'") simp
qed

lemma with_values_Nil [simp]: "with_values [] outs = []"
  by (simp add: with_values_def)

lemma with_values_Cons [simp]:
  "with_values (p # ps) (r # rs) = p\<lparr>Val := fst r\<rparr> # with_values ps rs"
  by (simp add: with_values_def)

lemma length_with_values: "length (with_values ps outs) = min (length ps) (length outs)"
  by (simp add: with_values_def)

lemma SerialEvaler_loop_continue:
  "SerialEvaler_loop True obj ps acc s =
     ((acc @ with_values ps (fst (call_each obj (map pos ps) s)),
       int (length acc + length ps), None),
      snd (call_each obj (map pos ps) s))"
  by (induction ps arbitrary: acc s) (auto simp: Pos_def split: prod.splits)

lemma SerialEvaler_loop_stop:
  "k < length ps \<Longrightarrow>
   \<forall>j<k. snd (fst (call_each obj (map pos (take (Suc k) ps)) s) ! j) = None \<Longrightarrow>
   snd (fst (call_each obj (map pos (take (Suc k) ps)) s) ! k) \<noteq> None \<Longrightarrow>
   SerialEvaler_loop False obj ps acc s =
     ((acc @ with_values (take (Suc k) ps) (fst (call_each obj (map pos (take (Suc k) ps)) s)),
       int (length acc + Suc k),
       snd (fst (call_each obj (map pos (take (Suc k) ps)) s) ! k)),
      snd (call_each obj (map pos (take (Suc k) ps)) s))"
proof (induction ps arbitrary: acc s k)
  case Nil
  then show ?case by simp
next
  case (Cons p ps)
  obtain v err s' where o: "obj (pos p) s = ((v, err), s')"
    by (metis surj_pair)
  show ?case
  proof (cases k)
    case 0
    with Cons.prems o show ?thesis
      by (auto simp: Pos_def split: prod.splits)
  next
    case (Suc k')
    obtain rs s'' where c: "call_each obj (map pos (take (Suc k') ps)) s' = (rs, s'')"
      by (metis surj_pair)
    from Cons.prems(2) Suc o c have e0: "err = None"
      by (auto dest: spec [of _ 0])
    from Cons.prems(2) Suc o c have a: "\<forall>j<k'. snd (rs ! j) = None"
      by (auto dest: spec [of _ "Suc _"])
    from Cons.prems(3) Suc o c have b: "snd (rs ! k') \<noteq> None"
      by auto
    from Cons.prems(1) Suc have l: "k' < length ps" by simp
    from Cons.IH [of k' s' "acc @ [p\<lparr>Val := v\<rparr>]"] l a b c
    show ?thesis using Suc o e0 c
      by (simp add: Pos_def)
  qed
qed

text \<open>
  Claim C8. With \<^verbatim>\<open>ContinueOnErr\<close> unset, let point \<open>k\<close> be the first point of the
  batch on which the objective reports an error, the objective being called on the points
  in order from the state \<open>s\<close>. Then \<^verbatim>\<open>SerialEvaler.Eval\<close> returns the first \<open>k + 1\<close>
  points, each with the value the objective gave it, the count \<open>k + 1\<close> and that error;
  the objective has been called on those \<open>k + 1\<close> points and on no other.
\<close>

theorem SerialEvaler_stops_at_first_failure:
  assumes "k < length points"
    and "call_each obj (map pos (take (Suc k) points)) s = (outs, s')"
    and "\<forall>j<k. snd (outs ! j) = None"
    and "snd (outs ! k) = Some e"
  shows "SerialEvaler_Eval False obj points s =
           ((with_values (take (Suc k) points) outs, int k + 1, Some e), s')
         \<and> length (with_values (take (Suc k) points) outs) = k + 1"
proof -
  have "length outs = Suc k"
    using length_call_each [of obj "map pos (take (Suc k) points)" s] assms(1,2) by simp
  then have len: "length (with_values (take (Suc k) points) outs) = k + 1"
    using assms(1) by (simp add: length_with_values)
  have "SerialEvaler_loop False obj points [] s =
          (([] @ with_values (take (Suc k) points) outs, int (length ([] :: 'a Point list) + Suc k),
            snd (outs ! k)), s')"
    using SerialEvaler_loop_stop [of k points obj s "[]"] assms by simp
  then show ?thesis
    using len assms(4) by (simp add: SerialEvaler_Eval_def)
qed

theorem SerialEvaler_stops_at_first_failure_witness:
  "SerialEvaler_Eval False
      (\<lambda>v s. if v = [0x4000000000000000]
             then ((0x7FF0000000000000, Some (Error ''failed'')), Suc s)
             else ((0x4014000000000000, None), Suc s))
      [\<lparr>pos = [0x3FF0000000000000 :: 64 word], Val = 0\<rparr>,
       \<lparr>pos = [0x4000000000000000], Val = 0\<rparr>,
       \<lparr>pos = [0x4008000000000000], Val = 0\<rparr>] (0 :: nat) =
     (([\<lparr>pos = [0x3FF0000000000000], Val = 0x4014000000000000\<rparr>,
        \<lparr>pos = [0x4000000000000000], Val = 0x7FF0000000000000\<rparr>], 2, Some (Error ''failed'')), 2)"
  using SerialEvaler_stops_at_first_failure
    [of 1 "[\<lparr>pos = [0x3FF0000000000000 :: 64 word], Val = 0\<rparr>,
            \<lparr>pos = [0x4000000000000000], Val = 0\<rparr>,
            \<lparr>pos = [0x4008000000000000], Val = 0\<rparr>]"
        "\<lambda>v s. if v = [0x4000000000000000]
             then ((0x7FF0000000000000, Some (Error ''failed'')), Suc s)
             else ((0x4014000000000000, None), Suc s)"
        "0 :: nat"
        "[(0x4014000000000000, None), (0x7FF0000000000000, Some (Error ''failed''))]"
        2 "Error ''failed''"]
  by simp

text \<open>
  Claim C4, as amended. With \<^verbatim>\<open>ContinueOnErr\<close> set, \<^verbatim>\<open>SerialEvaler.Eval\<close> calls
  the objective on every point of the batch, in order, and returns every point with the
  value the objective gave it and the size of the batch as the count; the error it
  returns is \<^verbatim>\<open>nil\<close>, whatever the objective reported.
\<close>

theorem SerialEvaler_continue_returns_nil:
  assumes "call_each obj (map pos points) s = (outs, s')"
  shows "SerialEvaler_Eval True obj points s =
           ((with_values points outs, int (length points), None), s')
         \<and> length (with_values points outs) = length points"
proof -
  have "length outs = length points"
    using length_call_each [of obj "map pos points" s] assms by simp
  then have "length (with_values points outs) = length points"
    by (simp add: length_with_values)
  moreover have "SerialEvaler_Eval True obj points s =
      ((with_values points outs, int (length points), None), s')"
    using SerialEvaler_loop_continue [of obj points "[]" s] assms
    by (simp add: SerialEvaler_Eval_def)
  ultimately show ?thesis by simp
qed

theorem SerialEvaler_continue_returns_nil_witness:
  "SerialEvaler_Eval True
      (\<lambda>v s. if v = [0x4000000000000000]
             then ((0x7FF0000000000000, Some (Error ''failed'')), Suc s)
             else ((0x4014000000000000, None), Suc s))
      [\<lparr>pos = [0x3FF0000000000000 :: 64 word], Val = 0\<rparr>,
       \<lparr>pos = [0x4000000000000000], Val = 0\<rparr>,
       \<lparr>pos = [0x4008000000000000], Val = 0\<rparr>] (0 :: nat) =
     (([\<lparr>pos = [0x3FF0000000000000], Val = 0x4014000000000000\<rparr>,
        \<lparr>pos = [0x4000000000000000], Val = 0x7FF0000000000000\<rparr>,
        \<lparr>pos = [0x4008000000000000], Val = 0x4014000000000000\<rparr>], 3, None), 3)"
  using SerialEvaler_continue_returns_nil
    [of "\<lambda>v s. if v = [0x4000000000000000]
             then ((0x7FF0000000000000, Some (Error ''failed'')), Suc s)
             else ((0x4014000000000000, None), Suc s)"
        "[\<lparr>pos = [0x3FF0000000000000 :: 64 word], Val = 0\<rparr>,
            \<lparr>pos = [0x4000000000000000], Val = 0\<rparr>,
            \<lparr>pos = [0x4008000000000000], Val = 0\<rparr>]"
        "0 :: nat"
        "[(0x4014000000000000, None), (0x7FF0000000000000, Some (Error ''failed'')),
          (0x4014000000000000, None)]"
        3]
  by simp

text \<open>
  Claim C4 as stated fails: the objective fails on the second point of the batch, every
  point is evaluated, and the error returned is \<^verbatim>\<open>nil\<close>.
\<close>

theorem SerialEvaler_continue_error_counterexample:
  "snd (fst ((\<lambda>v s. if v = [0x4000000000000000 :: 64 word]
             then ((0x7FF0000000000000 :: 64 word, Some (Error ''failed'')), Suc s)
             else ((0x4014000000000000, None), Suc s)) [0x4000000000000000] (1 :: nat)))
     = Some (Error ''failed'')
   \<and> snd (snd (fst (SerialEvaler_Eval True
      (\<lambda>v s. if v = [0x4000000000000000]
             then ((0x7FF0000000000000, Some (Error ''failed'')), Suc s)
             else ((0x4014000000000000, None), Suc s))
      [\<lparr>pos = [0x3FF0000000000000 :: 64 word], Val = 0\<rparr>,
       \<lparr>pos = [0x4000000000000000], Val = 0\<rparr>,
       \<lparr>pos = [0x4008000000000000], Val = 0\<rparr>] (0 :: nat)))) = None"
  by (simp add: SerialEvaler_Eval_def Pos_def)

section \<open>Properties of the cache evaluator\<close>

lemma miss_indices_Nil [simp]: "miss_indices h c [] = []"
  by (simp add: miss_indices_def)

lemma miss_indices_Cons:
  "miss_indices h c (p # ps) =
     (if c (h p) = None then [0] else []) @ map Suc (miss_indices h c ps)"
proof -
  have "[0..<length (p # ps)] = 0 # map Suc [0..<length ps]"
    by (simp add: upt_conv_Cons map_Suc_upt del: upt_Suc)
  then show ?thesis
    by (simp add: miss_indices_def filter_map comp_def del: upt_Suc)
qed

lemma cache_scan_eq:
  "cache_scan h c ps i fromnew newp =
     (fromnew @ map (\<lambda>j. i + j) (miss_indices h c ps), newp @ misses h c ps)"
proof (induction ps arbitrary: i fromnew newp)
  case Nil
  then show ?case by (simp add: misses_def)
next
  case (Cons p ps)
  show ?case
    by (cases "c (h p)") (simp_all add: Cons miss_indices_Cons misses_def comp_def)
qed

lemma length_miss_indices: "length (miss_indices h c ps) = length (misses h c ps)"
  by (induction ps) (simp_all add: miss_indices_Cons misses_def)

lemma miss_indices_bound: "i \<in> set (miss_indices h c ps) \<Longrightarrow> i < length ps"
  by (simp add: miss_indices_def)

lemma distinct_miss_indices: "distinct (miss_indices h c ps)"
  by (simp add: miss_indices_def)

lemma backfill_ok:
  "length rs \<le> length ks \<Longrightarrow> \<forall>k\<in>set ks. k < length points \<Longrightarrow> distinct ks \<Longrightarrow>
   \<exists>points'. backfill points ks i len rs = Inr points'
      \<and> length points' = length points
      \<and> map pos points' = map pos points
      \<and> (\<forall>j<length rs. Val (points' ! (ks ! j)) = Val (rs ! j))
      \<and> (\<forall>m<length points. m \<notin> set (take (length rs) ks) \<longrightarrow> points' ! m = points ! m)"
proof (induction points ks i len rs rule: backfill.induct)
  case (1 points ks i len)
  then show ?case by simp
next
  case (2 points i len r rs)
  then show ?case by simp
next
  case (3 points k ks i len r rs)
  let ?pts = "points[k := (points ! k)\<lparr>Val := Val r\<rparr>]"
  from 3 have k: "k < length points" by simp
  have mp: "map pos ?pts = map pos points"
    using k by (simp add: map_update list_update_same_conv)
  from 3 k obtain points' where
    b: "backfill ?pts ks (Suc i) len rs = Inr points'"
    and l: "length points' = length points"
    and p: "map pos points' = map pos ?pts"
    and v: "\<forall>j<length rs. Val (points' ! (ks ! j)) = Val (rs ! j)"
    and u: "\<forall>m<length points. m \<notin> set (take (length rs) ks) \<longrightarrow> points' ! m = ?pts ! m"
    by auto
  have kn: "k \<notin> set (take (length rs) ks)"
    using 3(4) by (auto dest: in_set_takeD)
  have vk: "Val (points' ! k) = Val r"
    using u k kn by simp
  have "\<forall>j<length (r # rs). Val (points' ! ((k # ks) ! j)) = Val ((r # rs) ! j)"
    using v vk by (auto simp: nth_Cons split: nat.splits)
  moreover have "\<forall>m<length points. m \<notin> set (take (length (r # rs)) (k # ks))
      \<longrightarrow> points' ! m = points ! m"
    using u by auto
  ultimately show ?case
    using b l p mp k by simp
qed

lemma backfill_panics:
  "length ks < length rs \<Longrightarrow> \<forall>k\<in>set ks. k < length points \<Longrightarrow>
   backfill points ks i len rs = Inl (IndexOutOfRange (int (i + length ks)) len)"
  by (induction points ks i len rs rule: backfill.induct) auto


lemma cache_scan_start:
  "cache_scan h c ps 0 [] [] = (miss_indices h c ps, misses h c ps)"
  by (simp add: cache_scan_eq)

lemma nat_int_pred: "nat (int n - 1) = n - Suc 0"
  by arith

lemma CacheEvaler_Eval_unfold:
  assumes "ev ce obj (misses (hashPoint fbits sha1) (cache ce) points) s = ((newresults, n, err), s')"
  shows "fst (CacheEvaler_Eval fbits sha1 ce obj points s) =
     (case backfill points (miss_indices (hashPoint fbits sha1) (cache ce) points) 0
             (length (misses (hashPoint fbits sha1) (cache ce) points)) newresults of
        Inl pn \<Rightarrow> Inl pn
      | Inr points' \<Rightarrow>
          if misses (hashPoint fbits sha1) (cache ce) points = [] then Inr (points', n, err)
          else if newresults = [] then
            Inl (IndexOutOfRange (- 1) (length (misses (hashPoint fbits sha1) (cache ce) points)))
          else if length (misses (hashPoint fbits sha1) (cache ce) points) < length newresults then
            Inl (IndexOutOfRange (int (length newresults) - 1)
                   (length (misses (hashPoint fbits sha1) (cache ce) points)))
          else Inr (take (miss_indices (hashPoint fbits sha1) (cache ce) points ! (length newresults - 1) + 1)
                      points', n, err))"
  using assms
  by (auto simp: CacheEvaler_Eval_def cache_scan_start length_miss_indices Let_def nat_int_pred
           split: sum.splits)


text \<open>
  Claim C10. When the batch has a cache miss and the inner evaluator returns one result
  for every forwarded point, \<^verbatim>\<open>CacheEvaler.Eval\<close> returns the batch cut after the
  position of the last miss, with the count and the error of the inner evaluator: the
  result has the positions of that prefix, the misses carry the values the inner
  evaluator returned, the hits before the last miss are the input points as they came,
  and every hit after the last miss is left out.
\<close>

theorem CacheEvaler_drops_hits_after_last_miss:
  assumes "misses (hashPoint fbits sha1) (cache ce) points \<noteq> []"
    and "ev ce obj (misses (hashPoint fbits sha1) (cache ce) points) s = ((newresults, n, err), s')"
    and "length newresults = length (misses (hashPoint fbits sha1) (cache ce) points)"
  shows "\<exists>rs. fst (CacheEvaler_Eval fbits sha1 ce obj points s) = Inr (rs, n, err)
           \<and> length rs = last (miss_indices (hashPoint fbits sha1) (cache ce) points) + 1
           \<and> map pos rs =
               take (last (miss_indices (hashPoint fbits sha1) (cache ce) points) + 1) (map pos points)
           \<and> (\<forall>j<length newresults.
                 Val (rs ! (miss_indices (hashPoint fbits sha1) (cache ce) points ! j)) =
                 Val (newresults ! j))
           \<and> (\<forall>i\<le>last (miss_indices (hashPoint fbits sha1) (cache ce) points).
                 i \<notin> set (miss_indices (hashPoint fbits sha1) (cache ce) points) \<longrightarrow>
                 rs ! i = points ! i)"
proof -
  let ?h = "hashPoint fbits sha1"
  let ?mi = "miss_indices ?h (cache ce) points"
  let ?ms = "misses ?h (cache ce) points"
  have lmi: "length ?mi = length newresults"
    using assms(3) by (simp add: length_miss_indices)
  have ne: "?mi \<noteq> []" "newresults \<noteq> []"
    using assms(1,3) lmi by auto
  have bound: "\<forall>k\<in>set ?mi. k < length points"
    by (simp add: miss_indices_bound)
  from backfill_ok [of newresults ?mi points 0 "length ?ms"] lmi bound distinct_miss_indices [of ?h "cache ce" points]
  obtain points' where
    b: "backfill points ?mi 0 (length ?ms) newresults = Inr points'"
    and l: "length points' = length points"
    and p: "map pos points' = map pos points"
    and v: "\<forall>j<length newresults. Val (points' ! (?mi ! j)) = Val (newresults ! j)"
    and u: "\<forall>m<length points. m \<notin> set (take (length newresults) ?mi) \<longrightarrow> points' ! m = points ! m"
    by auto
  have lastmi: "?mi ! (length newresults - 1) = last ?mi"
    using ne lmi by (simp add: last_conv_nth)
  have lb: "last ?mi < length points"
    using ne bound by simp
  let ?rs = "take (last ?mi + 1) points'"
  have r: "fst (CacheEvaler_Eval fbits sha1 ce obj points s) = Inr (?rs, n, err)"
    using CacheEvaler_Eval_unfold [OF assms(2)] b assms(1,3) ne lastmi by simp
  have len: "length ?rs = last ?mi + 1"
    using lb l by simp
  have mp: "map pos ?rs = take (last ?mi + 1) (map pos points)"
    using arg_cong [OF p, of "take (last ?mi + 1)"] by (simp only: take_map)
  have le_last: "?mi ! j \<le> last ?mi" if "j < length newresults" for j
  proof -
    have "sorted ?mi" by (simp add: miss_indices_def sorted_wrt_filter)
    moreover have "j \<le> length newresults - 1" "length newresults - 1 < length ?mi"
      using that lmi by simp_all
    ultimately have "?mi ! j \<le> ?mi ! (length newresults - 1)"
      by (rule sorted_nth_mono)
    then show ?thesis by (simp only: lastmi)
  qed
  have vals: "\<forall>j<length newresults. Val (?rs ! (?mi ! j)) = Val (newresults ! j)"
    using v le_last by (simp add: less_Suc_eq_le)
  have keep: "\<forall>i\<le>last ?mi. i \<notin> set ?mi \<longrightarrow> ?rs ! i = points ! i"
    using u lb lmi by (simp add: less_Suc_eq_le)
  show ?thesis
    using r len mp vals keep by blast
qed




lemma CacheEvaler_Eval_no_results_panics:
  assumes "misses (hashPoint fbits sha1) (cache ce) points \<noteq> []"
    and "ev ce obj (misses (hashPoint fbits sha1) (cache ce) points) s = (([], n, err), s')"
  shows "fst (CacheEvaler_Eval fbits sha1 ce obj points s) =
           Inl (IndexOutOfRange (- 1) (length (misses (hashPoint fbits sha1) (cache ce) points)))"
  using CacheEvaler_Eval_unfold [OF assms(2)] assms(1) by simp

text \<open>
  Claim C5. The claim asks that \<^verbatim>\<open>CacheEvaler.Eval\<close> returns when the inner evaluator
  returns no result for a batch with a cache miss. The code evaluates
  \<^verbatim>\<open>fromnew[len(newresults)-1]\<close> there, with index \<open>-1\<close>, and panics: here on one
  uncached point and an inner evaluator that reports an error and no result.
\<close>

theorem CacheEvaler_Eval_zero_results_panic:
  "fst (CacheEvaler_Eval (\<lambda>w. w) sha1
          (NewCacheEvaler (\<lambda>obj ps s. (([], 0, Some (Error ''unavailable'')), s)))
          obj [\<lparr>pos = [0x3FF0000000000000], Val = 0\<rparr>] s) =
     Inl (IndexOutOfRange (- 1) 1)"
  by (simp add: CacheEvaler_Eval_def NewCacheEvaler_def)

text \<open>
  A batch that hits the cache on every point comes back as it was passed in: no value of
  the cache reaches the points.
\<close>

lemma CacheEvaler_Eval_all_hits:
  assumes "misses (hashPoint fbits sha1) (cache ce) points = []"
    and "ev ce obj [] s = (([], n, err), s')"
  shows "fst (CacheEvaler_Eval fbits sha1 ce obj points s) = Inr (points, n, err)"
proof -
  have "ev ce obj (misses (hashPoint fbits sha1) (cache ce) points) s = (([], n, err), s')"
    using assms by simp
  from CacheEvaler_Eval_unfold [OF this] show ?thesis
    using assms(1) length_miss_indices [of "hashPoint fbits sha1" "cache ce" points] by simp
qed

text \<open>
  Claim C1. The claim asks that a point whose coordinates were evaluated before comes
  back with the value recorded then. Evaluating the same one-point batch twice, the
  first call records the value \<open>5.0\<close> for the coordinates and the second call makes no
  call of the objective (the counter stays at 1), but the point comes back with the value
  it came in with, \<open>0.0\<close>: the cached value was assigned to the loop's copy of the
  point.
\<close>

theorem CacheEvaler_hit_keeps_input_value:
  "(let p = \<lparr>pos = [0x3FF0000000000000 :: 64 word], Val = 0\<rparr>;
        obj = ObjectivePrinter_Objective (Func_Objective (\<lambda>v. 0x4014000000000000));
        first = CacheEvaler_Eval (\<lambda>w. w) sha1 (NewCacheEvaler (SerialEvaler_Eval False)) obj [p]
                  (\<lparr>Count = 0, printed = []\<rparr>, ());
        second = CacheEvaler_Eval (\<lambda>w. w) sha1 (fst (snd first)) obj [p] (snd (snd first))
    in fst first = Inr ([\<lparr>pos = [0x3FF0000000000000], Val = 0x4014000000000000\<rparr>], 1, None)
       \<and> cache (fst (snd first)) (hashPoint (\<lambda>w. w) sha1 p) = Some 0x4014000000000000
       \<and> Count (fst (snd (snd first))) = 1
       \<and> fst second = Inr ([\<lparr>pos = [0x3FF0000000000000], Val = 0\<rparr>], 0, None)
       \<and> Count (fst (snd (snd second))) = 1)"
  by (simp add: CacheEvaler_Eval_def NewCacheEvaler_def SerialEvaler_Eval_def
        ObjectivePrinter_Objective_def Func_Objective_def Pos_def Let_def hashPoint_def)



text \<open>
  An instance: the second and the fourth point hit the cache, the first and the third
  miss it, and three points come back.
\<close>

theorem CacheEvaler_drops_hits_after_last_miss_witness:
  "\<exists>rs. fst (CacheEvaler_Eval (\<lambda>w. w) (\<lambda>bs. bs)
      \<lparr>ev = SerialEvaler_Eval False,
       cache = [hashPoint (\<lambda>w. w) (\<lambda>bs. bs) \<lparr>pos = [0x4000000000000000], Val = 0\<rparr>
                  \<mapsto> 0x4008000000000000]\<rparr>
      (Func_Objective (\<lambda>v. 0x4014000000000000))
      [\<lparr>pos = [0x3FF0000000000000], Val = 0\<rparr>, \<lparr>pos = [0x4000000000000000], Val = 0\<rparr>,
       \<lparr>pos = [0x4010000000000000], Val = 0\<rparr>, \<lparr>pos = [0x4000000000000000], Val = 0\<rparr>]
      ()) = Inr (rs, 2, None)
    \<and> length rs = 3
    \<and> map pos rs = [[0x3FF0000000000000], [0x4000000000000000], [0x4010000000000000]]"
proof -
  let ?h = "hashPoint (\<lambda>w. w) (\<lambda>bs. bs) :: 64 word Point \<Rightarrow> 8 word list"
  let ?ce = "\<lparr>ev = SerialEvaler_Eval False,
       cache = [?h \<lparr>pos = [0x4000000000000000], Val = 0\<rparr> \<mapsto> 0x4008000000000000 :: 64 word]\<rparr>
       :: (64 word, unit, 8 word list) CacheEvaler"
  let ?points = "[\<lparr>pos = [0x3FF0000000000000], Val = 0\<rparr>, \<lparr>pos = [0x4000000000000000], Val = 0\<rparr>,
       \<lparr>pos = [0x4010000000000000], Val = 0\<rparr>, \<lparr>pos = [0x4000000000000000], Val = 0\<rparr>] :: 64 word Point list"
  have ms: "misses ?h (cache ?ce) ?points =
      [\<lparr>pos = [0x3FF0000000000000], Val = 0\<rparr>, \<lparr>pos = [0x4010000000000000], Val = 0\<rparr>]"
    by (simp add: misses_def hashPoint_def PutUint64_def)
  have mi: "miss_indices ?h (cache ?ce) ?points = [0, 2]"
    by (simp add: miss_indices_Cons hashPoint_def PutUint64_def)
  have a: "misses ?h (cache ?ce) ?points \<noteq> []"
    unfolding ms by simp
  have b: "ev ?ce (Func_Objective (\<lambda>v. 0x4014000000000000)) (misses ?h (cache ?ce) ?points) () =
      (([\<lparr>pos = [0x3FF0000000000000], Val = 0x4014000000000000\<rparr>,
         \<lparr>pos = [0x4010000000000000], Val = 0x4014000000000000\<rparr>], 2, None), ())"
    unfolding ms by (simp add: SerialEvaler_Eval_def Func_Objective_def Pos_def)
  have c: "length [\<lparr>pos = [0x3FF0000000000000 :: 64 word], Val = 0x4014000000000000 :: 64 word\<rparr>,
         \<lparr>pos = [0x4010000000000000], Val = 0x4014000000000000\<rparr>] =
       length (misses ?h (cache ?ce) ?points)"
    unfolding ms by simp
  from CacheEvaler_drops_hits_after_last_miss [OF a b c] obtain rs where
    "fst (CacheEvaler_Eval (\<lambda>w. w) (\<lambda>bs. bs) ?ce (Func_Objective (\<lambda>v. 0x4014000000000000))
            ?points ()) = Inr (rs, 2, None)"
    "length rs = last (miss_indices ?h (cache ?ce) ?points) + 1"
    "map pos rs = take (last (miss_indices ?h (cache ?ce) ?points) + 1) (map pos ?points)"
    by blast
  then show ?thesis
    unfolding mi by (intro exI [of _ rs]) simp
qed

section \<open>Properties of the penalty decorator\<close>

lemma then_do_Inr [simp]: "then_do (Inr x) f = f x"
  by (simp add: then_do_def)

lemma then_do_Inl [simp]: "then_do (Inl e) f = Inl e"
  by (simp add: then_do_def)










section \<open>Properties of the polyhedral projector\<close>




lemma Nearest_loop_steps_Next:
  "Nearest_steps solve invert Am b k st = Next st' \<Longrightarrow>
   Nearest_loop solve invert Am b st = Nearest_loop solve invert Am b st'"
proof (induction k arbitrary: st)
  case 0
  then show ?case by simp
next
  case (Suc k)
  then obtain st1 where s: "Nearest_step solve invert Am b st = Next st1"
    and r: "Nearest_steps solve invert Am b k st1 = Next st'"
    by (auto split: Nearest_step_result.splits)
  have "Nearest_loop solve invert Am b st = Nearest_loop solve invert Am b st1"
    using s by (subst Nearest_loop.simps) simp
  then show ?case using Suc.IH [OF r] by simp
qed

lemma Nearest_steps_Suc_end:
  "Nearest_steps solve invert Am b k st = Next st' \<Longrightarrow>
   Nearest_steps solve invert Am b (Suc k) st = Nearest_step solve invert Am b st'"
proof (induction k arbitrary: st)
  case 0
  then show ?case by (simp split: Nearest_step_result.splits)
next
  case (Suc k)
  then obtain st1 where s: "Nearest_step solve invert Am b st = Next st1"
    and r: "Nearest_steps solve invert Am b k st1 = Next st'"
    by (auto split: Nearest_step_result.splits)
  from Suc.IH [OF r] s show ?case by simp
qed

lemma projection_fails_iff:
  "projection_fails solve invert Am b st \<longleftrightarrow>
     (\<exists>Aviol bviol badA badb err.
        mostviolated (proj st) Am b = Inr (Some (Aviol, bviol))
        \<and> stack_bad (bad st) Aviol bviol = Inr (badA, badb)
        \<and> OrthoProj solve invert (frm st) badA badb = Inr (Inl err))"
proof (cases "mostviolated (proj st) Am b")
  case (Inl pn)
  then show ?thesis by (simp add: projection_fails_def)
next
  case (Inr w)
  show ?thesis
  proof (cases w)
    case None
    with Inr show ?thesis by (simp add: projection_fails_def)
  next
    case (Some ab)
    obtain Aviol bviol where ab: "ab = (Aviol, bviol)" by (cases ab)
    show ?thesis
    proof (cases "stack_bad (bad st) Aviol bviol")
      case (Inl pn)
      with Inr Some ab show ?thesis by (simp add: projection_fails_def)
    next
      case sb: (Inr bb)
      obtain badA badb where bb: "bb = (badA, badb)" by (cases bb)
      show ?thesis
      proof (cases "OrthoProj solve invert (frm st) badA badb")
        case (Inl pn)
        with Inr Some ab sb bb show ?thesis by (simp add: projection_fails_def)
      next
        case op: (Inr r)
        with Inr Some ab sb bb show ?thesis
          by (cases r) (simp_all add: projection_fails_def)
      qed
    qed
  qed
qed

lemma Nearest_step_fails:
  assumes "projection_fails solve invert Am b st"
  shows "Nearest_step solve invert Am b st =
     (if failcount st + 1 = 2 then Return (proj st, False)
      else Next (st\<lparr>frm := proj st, bad := None, failcount := failcount st + 1\<rparr>))"
proof -
  from assms obtain Aviol bviol badA badb err where
    "mostviolated (proj st) Am b = Inr (Some (Aviol, bviol))"
    "stack_bad (bad st) Aviol bviol = Inr (badA, badb)"
    "OrthoProj solve invert (frm st) badA badb = Inr (Inl err)"
    unfolding projection_fails_iff by blast
  then show ?thesis
    by (simp add: Nearest_step_def Let_def)
qed

lemma Nearest_step_not_fails:
  assumes "\<not> projection_fails solve invert Am b st"
  shows "(\<forall>st'. Nearest_step solve invert Am b st = Next st' \<longrightarrow> failcount st' = failcount st)
         \<and> (\<forall>p. Nearest_step solve invert Am b st \<noteq> Return (p, False))"
proof (cases "mostviolated (proj st) Am b")
  case (Inl pn)
  then show ?thesis by (simp add: Nearest_step_def)
next
  case (Inr w)
  show ?thesis
  proof (cases w)
    case None
    with Inr show ?thesis by (simp add: Nearest_step_def)
  next
    case (Some ab)
    obtain Aviol bviol where ab: "ab = (Aviol, bviol)" by (cases ab)
    show ?thesis
    proof (cases "stack_bad (bad st) Aviol bviol")
      case (Inl pn)
      with Inr Some ab show ?thesis by (simp add: Nearest_step_def)
    next
      case sb: (Inr bb)
      obtain badA badb where bb: "bb = (badA, badb)" by (cases bb)
      show ?thesis
      proof (cases "OrthoProj solve invert (frm st) badA badb")
        case (Inl pn)
        with Inr Some ab sb bb show ?thesis by (simp add: Nearest_step_def)
      next
        case op: (Inr r)
        show ?thesis
        proof (cases r)
          case (Inl err)
          with Inr Some ab sb bb op assms show ?thesis
            by (simp add: projection_fails_def)
        next
          case r: (Inr newproj)
          with Inr Some ab sb bb op show ?thesis
            by (auto simp: Nearest_step_def)
        qed
      qed
    qed
  qed
qed

lemma failcount_counts:
  "Nearest_steps solve invert Am b k st = Next st' \<Longrightarrow>
   failcount st' = failcount st + count_failures solve invert Am b k st"
proof (induction k arbitrary: st)
  case 0
  then show ?case by simp
next
  case (Suc k)
  then obtain st1 where s: "Nearest_step solve invert Am b st = Next st1"
    and r: "Nearest_steps solve invert Am b k st1 = Next st'"
    by (auto split: Nearest_step_result.splits)
  show ?case
  proof (cases "projection_fails solve invert Am b st")
    case True
    from Nearest_step_fails [OF True] s
    have "failcount st1 = failcount st + 1"
      by (auto split: if_splits)
    then show ?thesis
      using Suc.IH [OF r] s True by simp
  next
    case False
    from Nearest_step_not_fails [OF False] s have "failcount st1 = failcount st"
      by simp
    then show ?thesis
      using Suc.IH [OF r] s False by simp
  qed
qed

lemma failcount_below_two:
  "Nearest_steps solve invert Am b k st = Next st' \<Longrightarrow> failcount st \<le> 1 \<Longrightarrow> failcount st' \<le> 1"
proof (induction k arbitrary: st)
  case 0
  then show ?case by simp
next
  case (Suc k)
  then obtain st1 where s: "Nearest_step solve invert Am b st = Next st1"
    and r: "Nearest_steps solve invert Am b k st1 = Next st'"
    by (auto split: Nearest_step_result.splits)
  have "failcount st1 \<le> 1"
  proof (cases "projection_fails solve invert Am b st")
    case True
    from Nearest_step_fails [OF True] s Suc.prems(2) show ?thesis
      by (auto split: if_splits)
  next
    case False
    from Nearest_step_not_fails [OF False] s Suc.prems(2) show ?thesis
      by simp
  qed
  then show ?case using Suc.IH [OF r] by simp
qed

text \<open>
  Claim C2, as amended. Let the loop of \<^verbatim>\<open>Nearest\<close> still run after \<open>k\<close> passes, in
  the state \<open>st\<close>. At most one projection has failed in those passes. If none has failed
  and the projection of the next pass fails, the loop goes on from the reference point
  reset to the last valid candidate, with the working set cleared. If one has failed,
  in whichever of the \<open>k\<close> passes and whatever number of projections succeeded after it,
  and the projection of the next pass fails, \<^verbatim>\<open>Nearest\<close> returns the last valid
  candidate and \<open>False\<close>. And a pass returns \<open>False\<close> in no other case: the failures
  of a call are counted and the count is never reset.
\<close>

theorem Nearest_second_failure_is_terminal:
  assumes "Nearest_steps solve invert Am b k \<lparr>frm = x0, proj = x0, bad = None, failcount = 0\<rparr> = Next st"
  shows "count_failures solve invert Am b k \<lparr>frm = x0, proj = x0, bad = None, failcount = 0\<rparr> \<le> 1
     \<and> (projection_fails solve invert Am b st
          \<and> count_failures solve invert Am b k \<lparr>frm = x0, proj = x0, bad = None, failcount = 0\<rparr> = 0
        \<longrightarrow> Nearest_steps solve invert Am b (Suc k) \<lparr>frm = x0, proj = x0, bad = None, failcount = 0\<rparr>
              = Next \<lparr>frm = proj st, proj = proj st, bad = None, failcount = 1\<rparr>)
     \<and> (projection_fails solve invert Am b st
          \<and> count_failures solve invert Am b k \<lparr>frm = x0, proj = x0, bad = None, failcount = 0\<rparr> = 1
        \<longrightarrow> Nearest solve invert x0 Am b = Some (Inr (proj st, False)))
     \<and> (\<forall>p. Nearest_step solve invert Am b st = Return (p, False)
        \<longrightarrow> projection_fails solve invert Am b st
            \<and> count_failures solve invert Am b k \<lparr>frm = x0, proj = x0, bad = None, failcount = 0\<rparr> = 1
            \<and> p = proj st)"
proof -
  let ?init = "\<lparr>frm = x0, proj = x0, bad = None, failcount = 0\<rparr>"
  let ?n = "count_failures solve invert Am b k ?init"
  have fc: "failcount st = ?n"
    using failcount_counts [OF assms] by simp
  have le: "?n \<le> 1"
    using failcount_below_two [OF assms] fc by simp
  have first: "Nearest_steps solve invert Am b (Suc k) ?init
      = Next \<lparr>frm = proj st, proj = proj st, bad = None, failcount = 1\<rparr>"
    if "projection_fails solve invert Am b st" "?n = 0"
  proof -
    have "Nearest_step solve invert Am b st = Next (st\<lparr>frm := proj st, bad := None, failcount := 1\<rparr>)"
      using Nearest_step_fails [OF that(1)] fc that(2) by simp
    moreover have "st\<lparr>frm := proj st, bad := None, failcount := 1\<rparr>
        = \<lparr>frm = proj st, proj = proj st, bad = None, failcount = 1\<rparr>"
      by simp
    ultimately show ?thesis
      using Nearest_steps_Suc_end [OF assms] by simp
  qed
  have second: "Nearest solve invert x0 Am b = Some (Inr (proj st, False))"
    if "projection_fails solve invert Am b st" "?n = 1"
  proof -
    have "Nearest_step solve invert Am b st = Return (proj st, False)"
      using Nearest_step_fails [OF that(1)] fc that(2) by simp
    then have "Nearest_loop solve invert Am b st = Some (Inr (proj st, False))"
      by (subst Nearest_loop.simps) simp
    then show ?thesis
      using Nearest_loop_steps_Next [OF assms] by (simp add: Nearest_def)
  qed
  have only: "projection_fails solve invert Am b st \<and> ?n = 1 \<and> p = proj st"
    if "Nearest_step solve invert Am b st = Return (p, False)" for p
  proof -
    have pf: "projection_fails solve invert Am b st"
      using Nearest_step_not_fails [of solve invert Am b st] that by blast
    from Nearest_step_fails [OF pf] that have "failcount st + 1 = 2" "p = proj st"
      by (auto split: if_splits)
    then show ?thesis using pf fc by simp
  qed
  show ?thesis
    using le first second only by blast
qed

lemmas mesh_eval_defs =
  Nearest_step_def mostviolated_def OrthoProj_def Mul_def column_def TCopy_def dot_def Dims_def
  At_def Row_def Col_def Stack_def Sub_def Add_def eye_def l2norm_def eps_def exact_Inverse_def
  del_nth_def Let_def projection_fails_def stack_bad_def

lemma upt_0_3: "[0..<3] = [0, 1, 2]"
  by (simp add: upt_rec)

lemma upt_0_2: "[0..<2] = [0, 1]"
  by (simp add: upt_rec)

lemma run_pass_1:
  "Nearest_step exact_Solve exact_Inverse
      \<lparr>cols = 3, rws = [[1, 0, 0], [- 1, 0, 0]]\<rparr> \<lparr>cols = 1, rws = [[1], [- 3]]\<rparr>
      \<lparr>frm = [2, 0, 0], proj = [2, 0, 0], bad = None, failcount = 0\<rparr> =
   Next \<lparr>frm = [2, 0, 0], proj = [1, 0, 0],
         bad = Some (\<lparr>cols = 3, rws = [[1, 0, 0]]\<rparr>, \<lparr>cols = 1, rws = [[1]]\<rparr>), failcount = 0\<rparr>"
  by (simp add: mesh_eval_defs upt_0_3)

lemma run_pass_2:
  "Nearest_step exact_Solve exact_Inverse
      \<lparr>cols = 3, rws = [[1, 0, 0], [- 1, 0, 0]]\<rparr> \<lparr>cols = 1, rws = [[1], [- 3]]\<rparr>
      \<lparr>frm = [2, 0, 0], proj = [1, 0, 0],
       bad = Some (\<lparr>cols = 3, rws = [[1, 0, 0]]\<rparr>, \<lparr>cols = 1, rws = [[1]]\<rparr>), failcount = 0\<rparr> =
   Next \<lparr>frm = [1, 0, 0], proj = [1, 0, 0], bad = None, failcount = 1\<rparr>"
  by (simp add: mesh_eval_defs upt_0_3 upt_0_2)

lemma run_fails_2:
  "projection_fails exact_Solve exact_Inverse
      \<lparr>cols = 3, rws = [[1, 0, 0], [- 1, 0, 0]]\<rparr> \<lparr>cols = 1, rws = [[1], [- 3]]\<rparr>
      \<lparr>frm = [2, 0, 0], proj = [1, 0, 0],
       bad = Some (\<lparr>cols = 3, rws = [[1, 0, 0]]\<rparr>, \<lparr>cols = 1, rws = [[1]]\<rparr>), failcount = 0\<rparr>"
  by (simp add: mesh_eval_defs upt_0_3 upt_0_2)

lemma run_pass_3:
  "Nearest_step exact_Solve exact_Inverse
      \<lparr>cols = 3, rws = [[1, 0, 0], [- 1, 0, 0]]\<rparr> \<lparr>cols = 1, rws = [[1], [- 3]]\<rparr>
      \<lparr>frm = [1, 0, 0], proj = [1, 0, 0], bad = None, failcount = 1\<rparr> =
   Next \<lparr>frm = [1, 0, 0], proj = [3, 0, 0],
         bad = Some (\<lparr>cols = 3, rws = [[- 1, 0, 0]]\<rparr>, \<lparr>cols = 1, rws = [[- 3]]\<rparr>), failcount = 1\<rparr>"
  by (simp add: mesh_eval_defs upt_0_3)

lemma run_fails_3:
  "\<not> projection_fails exact_Solve exact_Inverse
      \<lparr>cols = 3, rws = [[1, 0, 0], [- 1, 0, 0]]\<rparr> \<lparr>cols = 1, rws = [[1], [- 3]]\<rparr>
      \<lparr>frm = [1, 0, 0], proj = [1, 0, 0], bad = None, failcount = 1\<rparr>"
  by (simp add: mesh_eval_defs upt_0_3)

lemma run_fails_1:
  "\<not> projection_fails exact_Solve exact_Inverse
      \<lparr>cols = 3, rws = [[1, 0, 0], [- 1, 0, 0]]\<rparr> \<lparr>cols = 1, rws = [[1], [- 3]]\<rparr>
      \<lparr>frm = [2, 0, 0], proj = [2, 0, 0], bad = None, failcount = 0\<rparr>"
  by (simp add: mesh_eval_defs upt_0_3)

lemma run_fails_4:
  "projection_fails exact_Solve exact_Inverse
      \<lparr>cols = 3, rws = [[1, 0, 0], [- 1, 0, 0]]\<rparr> \<lparr>cols = 1, rws = [[1], [- 3]]\<rparr>
      \<lparr>frm = [1, 0, 0], proj = [3, 0, 0],
       bad = Some (\<lparr>cols = 3, rws = [[- 1, 0, 0]]\<rparr>, \<lparr>cols = 1, rws = [[- 3]]\<rparr>), failcount = 1\<rparr>"
  by (simp add: mesh_eval_defs upt_0_3 upt_0_2)

lemma run_pass_4:
  "Nearest_step exact_Solve exact_Inverse
      \<lparr>cols = 3, rws = [[1, 0, 0], [- 1, 0, 0]]\<rparr> \<lparr>cols = 1, rws = [[1], [- 3]]\<rparr>
      \<lparr>frm = [1, 0, 0], proj = [3, 0, 0],
       bad = Some (\<lparr>cols = 3, rws = [[- 1, 0, 0]]\<rparr>, \<lparr>cols = 1, rws = [[- 3]]\<rparr>), failcount = 1\<rparr> =
   Return ([3, 0, 0], False)"
  by (simp add: mesh_eval_defs upt_0_3 upt_0_2)

lemma run_steps_3:
  "Nearest_steps exact_Solve exact_Inverse
      \<lparr>cols = 3, rws = [[1, 0, 0], [- 1, 0, 0]]\<rparr> \<lparr>cols = 1, rws = [[1], [- 3]]\<rparr> (Suc (Suc (Suc 0)))
      \<lparr>frm = [2, 0, 0], proj = [2, 0, 0], bad = None, failcount = 0\<rparr> =
   Next \<lparr>frm = [1, 0, 0], proj = [3, 0, 0],
         bad = Some (\<lparr>cols = 3, rws = [[- 1, 0, 0]]\<rparr>, \<lparr>cols = 1, rws = [[- 3]]\<rparr>), failcount = 1\<rparr>"
  by (simp only: Nearest_steps.simps run_pass_1 run_pass_2 run_pass_3 Nearest_step_result.case)

lemma run_count_3:
  "count_failures exact_Solve exact_Inverse
      \<lparr>cols = 3, rws = [[1, 0, 0], [- 1, 0, 0]]\<rparr> \<lparr>cols = 1, rws = [[1], [- 3]]\<rparr> (Suc (Suc (Suc 0)))
      \<lparr>frm = [2, 0, 0], proj = [2, 0, 0], bad = None, failcount = 0\<rparr> = 1"
  by (simp only: count_failures.simps run_pass_1 run_pass_2 run_pass_3 run_fails_1 run_fails_2 run_fails_3
      Nearest_step_result.case if_True if_False)

text \<open>
  An instance, in exact arithmetic: the rows \<open>x \<le> 1\<close> and \<open>- x \<le> - 3\<close> in three
  dimensions, from \<open>(2, 0, 0)\<close>. After three passes one projection has failed, the
  projection of the fourth pass fails, and the candidate \<open>(3, 0, 0)\<close> is returned with
  \<open>False\<close>.
\<close>

theorem Nearest_second_failure_is_terminal_witness:
  "Nearest exact_Solve exact_Inverse [2, 0, 0]
      \<lparr>cols = 3, rws = [[1, 0, 0], [- 1, 0, 0]]\<rparr> \<lparr>cols = 1, rws = [[1], [- 3]]\<rparr> =
     Some (Inr ([3, 0, 0], False))
   \<and> count_failures exact_Solve exact_Inverse
      \<lparr>cols = 3, rws = [[1, 0, 0], [- 1, 0, 0]]\<rparr> \<lparr>cols = 1, rws = [[1], [- 3]]\<rparr> (Suc (Suc (Suc 0)))
      \<lparr>frm = [2, 0, 0], proj = [2, 0, 0], bad = None, failcount = 0\<rparr> = 1"
proof -
  have "proj \<lparr>frm = [1, 0, 0], proj = [3, 0, 0 :: real],
         bad = Some (\<lparr>cols = 3, rws = [[- 1, 0, 0]]\<rparr>, \<lparr>cols = 1, rws = [[- 3]]\<rparr>), failcount = 1\<rparr>
       = [3, 0, 0]"
    by simp
  then show ?thesis
    using Nearest_second_failure_is_terminal [OF run_steps_3] run_fails_4 run_count_3
    by (simp only: simp_thms)
qed

text \<open>
  Claim C2 as stated fails on that run: the projection of the second pass fails, the
  projection of the third pass succeeds (the candidate moves from \<open>(1, 0, 0)\<close> to
  \<open>(3, 0, 0)\<close>), the projection of the fourth pass fails, and \<^verbatim>\<open>Nearest\<close> returns
  \<open>False\<close> although the two failures are not consecutive.
\<close>

theorem Nearest_nonconsecutive_failures_counterexample:
  "Nearest_steps exact_Solve exact_Inverse
      \<lparr>cols = 3, rws = [[1, 0, 0], [- 1, 0, 0]]\<rparr> \<lparr>cols = 1, rws = [[1], [- 3]]\<rparr> (Suc 0)
      \<lparr>frm = [2, 0, 0], proj = [2, 0, 0], bad = None, failcount = 0\<rparr> =
     Next \<lparr>frm = [2, 0, 0], proj = [1, 0, 0],
         bad = Some (\<lparr>cols = 3, rws = [[1, 0, 0]]\<rparr>, \<lparr>cols = 1, rws = [[1]]\<rparr>), failcount = 0\<rparr>
   \<and> projection_fails exact_Solve exact_Inverse
      \<lparr>cols = 3, rws = [[1, 0, 0], [- 1, 0, 0]]\<rparr> \<lparr>cols = 1, rws = [[1], [- 3]]\<rparr>
      \<lparr>frm = [2, 0, 0], proj = [1, 0, 0],
       bad = Some (\<lparr>cols = 3, rws = [[1, 0, 0]]\<rparr>, \<lparr>cols = 1, rws = [[1]]\<rparr>), failcount = 0\<rparr>
   \<and> Nearest_steps exact_Solve exact_Inverse
      \<lparr>cols = 3, rws = [[1, 0, 0], [- 1, 0, 0]]\<rparr> \<lparr>cols = 1, rws = [[1], [- 3]]\<rparr> (Suc (Suc 0))
      \<lparr>frm = [2, 0, 0], proj = [2, 0, 0], bad = None, failcount = 0\<rparr> =
     Next \<lparr>frm = [1, 0, 0], proj = [1, 0, 0], bad = None, failcount = 1\<rparr>
   \<and> \<not> projection_fails exact_Solve exact_Inverse
      \<lparr>cols = 3, rws = [[1, 0, 0], [- 1, 0, 0]]\<rparr> \<lparr>cols = 1, rws = [[1], [- 3]]\<rparr>
      \<lparr>frm = [1, 0, 0], proj = [1, 0, 0], bad = None, failcount = 1\<rparr>
   \<and> Nearest_steps exact_Solve exact_Inverse
      \<lparr>cols = 3, rws = [[1, 0, 0], [- 1, 0, 0]]\<rparr> \<lparr>cols = 1, rws = [[1], [- 3]]\<rparr> (Suc (Suc (Suc 0)))
      \<lparr>frm = [2, 0, 0], proj = [2, 0, 0], bad = None, failcount = 0\<rparr> =
     Next \<lparr>frm = [1, 0, 0], proj = [3, 0, 0],
         bad = Some (\<lparr>cols = 3, rws = [[- 1, 0, 0]]\<rparr>, \<lparr>cols = 1, rws = [[- 3]]\<rparr>), failcount = 1\<rparr>
   \<and> projection_fails exact_Solve exact_Inverse
      \<lparr>cols = 3, rws = [[1, 0, 0], [- 1, 0, 0]]\<rparr> \<lparr>cols = 1, rws = [[1], [- 3]]\<rparr>
      \<lparr>frm = [1, 0, 0], proj = [3, 0, 0],
       bad = Some (\<lparr>cols = 3, rws = [[- 1, 0, 0]]\<rparr>, \<lparr>cols = 1, rws = [[- 3]]\<rparr>), failcount = 1\<rparr>
   \<and> Nearest exact_Solve exact_Inverse [2, 0, 0]
      \<lparr>cols = 3, rws = [[1, 0, 0], [- 1, 0, 0]]\<rparr> \<lparr>cols = 1, rws = [[1], [- 3]]\<rparr> =
     Some (Inr ([3, 0, 0], False))"
proof -
  have "Nearest_loop exact_Solve exact_Inverse
      \<lparr>cols = 3, rws = [[1, 0, 0], [- 1, 0, 0]]\<rparr> \<lparr>cols = 1, rws = [[1], [- 3]]\<rparr>
      \<lparr>frm = [1, 0, 0], proj = [3, 0, 0],
       bad = Some (\<lparr>cols = 3, rws = [[- 1, 0, 0]]\<rparr>, \<lparr>cols = 1, rws = [[- 3]]\<rparr>), failcount = 1\<rparr> =
     Some (Inr ([3, 0, 0], False))"
    by (subst Nearest_loop.simps) (simp only: run_pass_4 Nearest_step_result.case)
  then have "Nearest exact_Solve exact_Inverse [2, 0, 0]
      \<lparr>cols = 3, rws = [[1, 0, 0], [- 1, 0, 0]]\<rparr> \<lparr>cols = 1, rws = [[1], [- 3]]\<rparr> =
     Some (Inr ([3, 0, 0], False))"
    using Nearest_loop_steps_Next [OF run_steps_3] by (simp only: Nearest_def)
  moreover have "Nearest_steps exact_Solve exact_Inverse
      \<lparr>cols = 3, rws = [[1, 0, 0], [- 1, 0, 0]]\<rparr> \<lparr>cols = 1, rws = [[1], [- 3]]\<rparr> (Suc 0)
      \<lparr>frm = [2, 0, 0], proj = [2, 0, 0], bad = None, failcount = 0\<rparr> =
     Next \<lparr>frm = [2, 0, 0], proj = [1, 0, 0],
         bad = Some (\<lparr>cols = 3, rws = [[1, 0, 0]]\<rparr>, \<lparr>cols = 1, rws = [[1]]\<rparr>), failcount = 0\<rparr>"
    by (simp only: Nearest_steps.simps run_pass_1 Nearest_step_result.case)
  moreover have "Nearest_steps exact_Solve exact_Inverse
      \<lparr>cols = 3, rws = [[1, 0, 0], [- 1, 0, 0]]\<rparr> \<lparr>cols = 1, rws = [[1], [- 3]]\<rparr> (Suc (Suc 0))
      \<lparr>frm = [2, 0, 0], proj = [2, 0, 0], bad = None, failcount = 0\<rparr> =
     Next \<lparr>frm = [1, 0, 0], proj = [1, 0, 0], bad = None, failcount = 1\<rparr>"
    by (simp only: Nearest_steps.simps run_pass_1 run_pass_2 Nearest_step_result.case)
  ultimately show ?thesis
    using run_fails_2 run_fails_3 run_fails_4 run_steps_3
    by (simp only: simp_thms)
qed


section \<open>Properties of the parallel evaluator\<close>

lemma main_step_stays:
  assumes "\<not> ch_closed st" "pc st = Spawning \<or> pc st = Receiving" "main_step st = Some st'"
  shows "\<not> ch_closed st' \<and> (pc st' = Spawning \<or> pc st' = Receiving)"
  using assms
  by (auto simp: main_step_def split: main_pc.splits list.splits if_splits)

lemma goroutine_step_stays:
  assumes "goroutine_step obj i st = Some st'"
  shows "ch_closed st' = ch_closed st \<and> pc st' = pc st"
  using assms
  by (auto simp: goroutine_step_def split: goroutine.splits if_splits prod.splits)

lemma par_step_stays:
  assumes "\<not> ch_closed st" "pc st = Spawning \<or> pc st = Receiving" "par_step obj a st = Some st'"
  shows "\<not> ch_closed st' \<and> (pc st' = Spawning \<or> pc st' = Receiving)"
proof (cases a)
  case Main
  then show ?thesis
    using assms main_step_stays [of st st'] by (simp add: par_step_def)
next
  case (Goroutine i)
  then show ?thesis
    using assms goroutine_step_stays [of obj i st st'] by (simp add: par_step_def)
qed

lemma par_run_stays:
  "\<not> ch_closed st \<Longrightarrow> pc st = Spawning \<or> pc st = Receiving \<Longrightarrow>
   \<not> ch_closed (par_run obj sched st)
   \<and> (pc (par_run obj sched st) = Spawning \<or> pc (par_run obj sched st) = Receiving)"
proof (induction sched arbitrary: st)
  case Nil
  then show ?case by simp
next
  case (Cons a sched)
  show ?case
  proof (cases "par_step obj a st")
    case None
    then show ?thesis using Cons by simp
  next
    case (Some st')
    from par_step_stays [OF Cons.prems Some] Cons.IH [of st'] Some show ?thesis
      by simp
  qed
qed

text \<open>
  Claim C3. The claim asks that \<^verbatim>\<open>ParallelEvaler.Eval\<close> returns once every goroutine
  has reported. The receive loop \<^verbatim>\<open>for p := range ch\<close> ends only on a closed channel
  and nothing closes \<^verbatim>\<open>ch\<close>: for every batch, every objective and every schedule
  of the goroutines, \<^verbatim>\<open>Eval\<close> has not returned, however long the schedule.
\<close>

theorem ParallelEvaler_Eval_never_returns:
  "ParallelEvaler_returned (par_run obj sched (ParallelEvaler_start points s)) = None"
proof -
  have "\<not> ch_closed (ParallelEvaler_start points s)"
    and "pc (ParallelEvaler_start points s) = Spawning \<or> pc (ParallelEvaler_start points s) = Receiving"
    by (simp_all add: ParallelEvaler_start_def)
  from par_run_stays [OF this, of obj sched] show ?thesis
    by (auto simp: ParallelEvaler_returned_def)
qed

text \<open>
  On a batch of one point: after the goroutine has reported and its result is collected,
  the main goroutine waits on the empty channel and no goroutine is left to move.
\<close>

lemma ParallelEvaler_Eval_deadlock:
  "par_run (Func_Objective (\<lambda>v. 0x4014000000000000))
      [Main, Main, Goroutine 0, Goroutine 0, Goroutine 0, Main]
      (ParallelEvaler_start [\<lparr>pos = [0x3FF0000000000000 :: 64 word], Val = 0\<rparr>] ()) =
    \<lparr>pending = [], goroutines = [Ended], ch = [], ch_cap = 1, ch_closed = False, wg = 0,
     eval_results = [\<lparr>pos = [0x3FF0000000000000], Val = 0x4014000000000000\<rparr>], eval_err = None,
     pc = Receiving, shared = ()\<rparr>
   \<and> main_step
        \<lparr>pending = [], goroutines = [Ended], ch = [], ch_cap = 1, ch_closed = False, wg = 0,
         eval_results = [\<lparr>pos = [0x3FF0000000000000 :: 64 word], Val = 0x4014000000000000 :: 64 word\<rparr>],
         eval_err = None, pc = Receiving, shared = ()\<rparr> = None
   \<and> goroutine_step (Func_Objective (\<lambda>v. 0x4014000000000000)) i
        \<lparr>pending = [], goroutines = [Ended], ch = [], ch_cap = 1, ch_closed = False, wg = 0,
         eval_results = [\<lparr>pos = [0x3FF0000000000000 :: 64 word], Val = 0x4014000000000000 :: 64 word\<rparr>],
         eval_err = None, pc = Receiving, shared = ()\<rparr> = None"
  by (simp add: ParallelEvaler_start_def par_step_def main_step_def goroutine_step_def
        Func_Objective_def Pos_def)

end
